theory Spec2Isabelle
  imports Main "HOL-Library.Word"
begin

unbundle bit_operations_syntax

section \<open>Data model\<close>

text \<open>
  Python integers are unbounded: addresses, lengths, opcodes and block sizes are \<open>int\<close>.
  A byte buffer (a Python string of the source) is a list of bytes.
\<close>

type_synonym byte = "8 word"

text \<open>The exceptions the source can raise, as values.\<close>

datatype error =
    ValueError string
  | NameError string
  | StructError
  | ZeroDivisionError
  | AttributeError
  | TypeError

text \<open>The argument \<open>data_or_wLength\<close> of a control transfer: a payload, a length to read, or None.\<close>

datatype payload = Data "byte list" | Length int | NoData

record ctrl =
  bmRequestType :: int
  bRequest :: int
  wValue :: int
  wIndex :: int
  data_or_wLength :: payload

text \<open>
  Every call the driver makes on the USB library is logged, oldest first: a control transfer,
  the request for the active configuration, the scan of the first interface for an endpoint
  of a direction, a bulk write (endpoint address, block, timeout) and a bulk read
  (endpoint address, length, timeout).
\<close>

datatype event =
    Ctrl ctrl
  | GetActiveConfiguration
  | FindDescriptor nat
  | BulkWrite nat "byte list" int
  | BulkRead nat int int

text \<open>
  The device behind \<open>self.dev\<close>, a memory-backed stub: the log, a byte memory with 32-bit
  addresses, the \<open>bEndpointAddress\<close> values of the endpoints of interface (0,0), and the
  address the next bulk block goes to or comes from. The object of the source has the one
  attribute \<open>dev\<close>, set by the constructor and assigned by no method, so a method is a
  function from the device state to a result and the next device state.
\<close>

record device =
  trace :: "event list"
  memory :: "int \<Rightarrow> byte"
  endpoints :: "nat list"
  cursor :: int

definition REQ_WRITE_MEM :: int where "REQ_WRITE_MEM = 0x01"
definition REQ_READ_MEM :: int where "REQ_READ_MEM = 0x02"
definition REQ_MODIFY_MEM :: int where "REQ_MODIFY_MEM = 0x04"
definition REQ_RUN_IN_ADDR :: int where "REQ_RUN_IN_ADDR = 0x05"
definition REQ_WR_LARGE_MEM :: int where "REQ_WR_LARGE_MEM = 0x11"
definition REQ_RD_LARGE_MEM :: int where "REQ_RD_LARGE_MEM = 0x12"
definition REQ_IDENTIFY_HOST :: int where "REQ_IDENTIFY_HOST = 0x20"
definition REQ_PASSWORD :: int where "REQ_PASSWORD = 0x35"
definition REQ_NOP :: int where "REQ_NOP = 0x36"
definition FLAG_KEEP_POWER_ON :: int where "FLAG_KEEP_POWER_ON = 0x10"

text \<open>The constants of \<open>usb.util\<close>: the direction is bit 7 of the endpoint address.\<close>

definition ENDPOINT_OUT :: nat where "ENDPOINT_OUT = 0x00"
definition ENDPOINT_IN :: nat where "ENDPOINT_IN = 0x80"

definition endpoint_direction :: "nat \<Rightarrow> nat" where
  "endpoint_direction address = address AND 0x80"

section \<open>Python primitives\<close>

text \<open>
  A slice \<open>xs[i:j]\<close>: a negative index counts from the end, and both indices are clamped
  to the list.
\<close>

definition clamp_index :: "nat \<Rightarrow> int \<Rightarrow> nat" where
  "clamp_index n i = (if i < 0 then nat (max 0 (int n + i)) else min n (nat i))"

definition py_slice :: "'a list \<Rightarrow> int \<Rightarrow> int \<Rightarrow> 'a list" where
  "py_slice xs i j =
     (let a = clamp_index (length xs) i; b = clamp_index (length xs) j
      in take (b - a) (drop a xs))"

text \<open>
  \<open>int(a / b)\<close> for a divisor that is not zero: the quotient truncated towards zero. (Under
  Python 2 the quotient of two integers is floored; the two agree wherever the quotient is
  exact or not negative.)
\<close>

definition int_truediv :: "int \<Rightarrow> int \<Rightarrow> int" where
  "int_truediv a b = sgn a * sgn b * (\<bar>a\<bar> div \<bar>b\<bar>)"

text \<open>\<open>pack('<I', x)\<close>: four bytes, least significant first; \<open>struct.error\<close> out of range.\<close>

definition le32 :: "int \<Rightarrow> byte list" where
  "le32 x = map (\<lambda>k. word_of_int (drop_bit (8 * k) x)) [0, 1, 2, 3]"

definition pack_I :: "int \<Rightarrow> error + byte list" where
  "pack_I x = (if 0 \<le> x \<and> x < 2 ^ 32 then Inr (le32 x) else Inl StructError)"

definition pack_IIII :: "int \<Rightarrow> int \<Rightarrow> int \<Rightarrow> int \<Rightarrow> error + byte list" where
  "pack_IIII a b c d =
     (case pack_I a of Inl e \<Rightarrow> Inl e | Inr x \<Rightarrow>
     (case pack_I b of Inl e \<Rightarrow> Inl e | Inr y \<Rightarrow>
     (case pack_I c of Inl e \<Rightarrow> Inl e | Inr z \<Rightarrow>
     (case pack_I d of Inl e \<Rightarrow> Inl e | Inr w \<Rightarrow> Inr (x @ y @ z @ w)))))"

text \<open>\<open>unpack('<I', reg)[0]\<close>: \<open>struct.error\<close> unless the buffer has four bytes.\<close>

definition unpack_I :: "byte list \<Rightarrow> error + int" where
  "unpack_I bs =
     (if length bs = 4
      then Inr (uint (bs ! 0) + 256 * uint (bs ! 1) + 65536 * uint (bs ! 2) + 16777216 * uint (bs ! 3))
      else Inl StructError)"

text \<open>
  What a read hands back. The USB library returns the bytes of a device-to-host transfer as
  an array of integers, which \<open>identify\<close> and \<open>readLargeMemory\<close> turn into a string one
  \<open>chr\<close> at a time; a string literal such as \<open>''\<close> is a string. \<open>+\<close> joins two strings and
  raises \<open>TypeError\<close> for a string and an array; \<open>unpack\<close> reads the bytes of either.
\<close>

datatype pybuf = Str "byte list" | Array "byte list"

fun str_add :: "byte list \<Rightarrow> pybuf \<Rightarrow> error + byte list" where
  "str_add s (Str t) = Inr (s @ t)"
| "str_add s (Array t) = Inl TypeError"

fun buf_bytes :: "pybuf \<Rightarrow> byte list" where
  "buf_bytes (Str t) = t"
| "buf_bytes (Array t) = t"

text \<open>
  The names a function of the module can refer to besides its own parameters: the imports,
  the constants and the class. No builtin is called \<open>length\<close>.
\<close>

datatype pyval = PyInt int | PyObject

definition module_globals :: "(string \<times> pyval) list" where
  "module_globals =
     [(''string'', PyObject), (''os'', PyObject), (''usb'', PyObject),
      (''Struct'', PyObject), (''unpack'', PyObject), (''pack'', PyObject),
      (''REQ_WRITE_MEM'', PyInt 0x01), (''REQ_READ_MEM'', PyInt 0x02),
      (''REQ_FILL_MEM'', PyInt 0x03), (''REQ_MODIFY_MEM'', PyInt 0x04),
      (''REQ_RUN_IN_ADDR'', PyInt 0x05), (''REQ_WRITE_AUX'', PyInt 0x06),
      (''REQ_READ_AUX'', PyInt 0x07), (''REQ_WR_LARGE_MEM'', PyInt 0x11),
      (''REQ_RD_LARGE_MEM'', PyInt 0x12), (''REQ_IDENTIFY_HOST'', PyInt 0x20),
      (''REQ_TPL_CMD'', PyInt 0x30), (''REQ_TPL_STAT'', PyInt 0x31),
      (''REQ_PASSWORD'', PyInt 0x35), (''REQ_NOP'', PyInt 0x36),
      (''FLAG_KEEP_POWER_ON'', PyInt 0x10), (''AmlogicSoC'', PyObject)]"

definition lookup_global :: "string \<Rightarrow> error + pyval" where
  "lookup_global name =
     (case map_of module_globals name of None \<Rightarrow> Inl (NameError name) | Some v \<Rightarrow> Inr v)"

section \<open>The device stub\<close>

text \<open>
  Modelled from the spec: the simulated memory-backed device of the round-trip property,
  which the repository does not contain. The setup packet of a control transfer has 16 bits
  for each of \<open>wValue\<close> and \<open>wIndex\<close>; the stub reads the address from them, high half
  first, writes the payload of a write-memory request there and answers a read-memory
  request with the bytes found there. A large-transfer announcement sets the cursor to the
  address in its payload, and each bulk block is stored at, or read from, the cursor, which
  then moves on. No transfer of the stub fails.
\<close>

definition wire_address :: "int \<Rightarrow> int \<Rightarrow> int" where
  "wire_address v i = (v mod 65536) * 65536 + i mod 65536"

fun store :: "(int \<Rightarrow> byte) \<Rightarrow> int \<Rightarrow> byte list \<Rightarrow> int \<Rightarrow> byte" where
  "store m a [] = m"
| "store m a (b # bs) = store (m(a mod 2 ^ 32 := b)) (a + 1) bs"

definition load :: "(int \<Rightarrow> byte) \<Rightarrow> int \<Rightarrow> nat \<Rightarrow> byte list" where
  "load m a n = map (\<lambda>k. m ((a + int k) mod 2 ^ 32)) [0..<n]"

definition log_event :: "event \<Rightarrow> device \<Rightarrow> device" where
  "log_event e d = d\<lparr>trace := trace d @ [e]\<rparr>"

definition ctrl_transfer :: "int \<Rightarrow> int \<Rightarrow> int \<Rightarrow> int \<Rightarrow> payload \<Rightarrow> device \<Rightarrow> byte list \<times> device" where
  "ctrl_transfer rt rq v i p d =
     (let d' = log_event (Ctrl \<lparr>bmRequestType = rt, bRequest = rq, wValue = v, wIndex = i,
                               data_or_wLength = p\<rparr>) d
      in if rt = 0x40 \<and> rq = REQ_WRITE_MEM then
           (case p of
              Data bs \<Rightarrow> ([], d'\<lparr>memory := store (memory d') (wire_address v i) bs\<rparr>)
            | _ \<Rightarrow> ([], d'))
         else if rt = 0xc0 \<and> rq = REQ_READ_MEM then
           (case p of
              Length n \<Rightarrow> (load (memory d') (wire_address v i) (nat n), d')
            | _ \<Rightarrow> ([], d'))
         else if rt = 0x40 \<and> (rq = REQ_WR_LARGE_MEM \<or> rq = REQ_RD_LARGE_MEM) then
           (case p of
              Data bs \<Rightarrow>
                (case unpack_I (take 4 bs) of
                   Inr a \<Rightarrow> ([], d'\<lparr>cursor := a\<rparr>)
                 | Inl _ \<Rightarrow> ([], d'))
            | _ \<Rightarrow> ([], d'))
         else if rt = 0xc0 then
           (case p of Length n \<Rightarrow> (replicate (nat n) 0, d') | _ \<Rightarrow> ([], d'))
         else ([], d'))"

definition get_active_configuration :: "device \<Rightarrow> device" where
  "get_active_configuration d = log_event GetActiveConfiguration d"

text \<open>\<open>usb.util.find_descriptor\<close> on interface (0,0): the first endpoint of the direction, or None.\<close>

definition find_descriptor :: "nat \<Rightarrow> device \<Rightarrow> nat option \<times> device" where
  "find_descriptor direction d =
     (find (\<lambda>e. endpoint_direction e = direction) (endpoints d),
      log_event (FindDescriptor direction) d)"

definition ep_write :: "nat \<Rightarrow> byte list \<Rightarrow> int \<Rightarrow> device \<Rightarrow> device" where
  "ep_write ep bs timeout d =
     (log_event (BulkWrite ep bs timeout) d)
       \<lparr>memory := store (memory d) (cursor d) bs, cursor := cursor d + int (length bs)\<rparr>"

definition ep_read :: "nat \<Rightarrow> int \<Rightarrow> int \<Rightarrow> device \<Rightarrow> byte list \<times> device" where
  "ep_read ep n timeout d =
     (load (memory d) (cursor d) (nat n),
      (log_event (BulkRead ep n timeout) d)\<lparr>cursor := cursor d + int (nat n)\<rparr>)"

text \<open>A device to run the driver on: an empty log, zeroed memory, one endpoint each way.\<close>

definition dev0 :: device where
  "dev0 = \<lparr>trace = [], memory = (\<lambda>_. 0), endpoints = [0x81, 0x02], cursor = 0\<rparr>"

section \<open>The driver\<close>

text \<open>
  Each method returns the exception it raised (\<open>Inl\<close>) or its value (\<open>Inr\<close>), and the
  device state it leaves, so that the transfers issued before an exception stay visible.
\<close>

definition writeSimpleMemory :: "int \<Rightarrow> byte list \<Rightarrow> device \<Rightarrow> (error + unit) \<times> device" where
  "writeSimpleMemory address data d =
     (if length data > 64 then (Inl (ValueError ''Maximum size of 64bytes''), d)
      else (Inr (), snd (ctrl_transfer 0x40 REQ_WRITE_MEM (drop_bit 16 address) (address AND 0xffff)
                           (Data data) d)))"

text \<open>
  The loop of \<open>writeMemory\<close>, on the variables \<open>length\<close> (here \<open>len\<close>) and \<open>offset\<close>;
  \<open>break\<close> leaves it after the last chunk.
\<close>

function writeMemory_loop ::
  "int \<Rightarrow> byte list \<Rightarrow> nat \<Rightarrow> int \<Rightarrow> device \<Rightarrow> (error + unit) \<times> device" where
  "writeMemory_loop address data len offset d =
     (if len \<noteq> 0 then
        (case writeSimpleMemory (address + offset) (py_slice data offset (offset + 64)) d of
           (Inl e, d') \<Rightarrow> (Inl e, d')
         | (Inr _, d') \<Rightarrow>
             if len > 64 then writeMemory_loop address data (len - 64) (offset + 64) d'
             else (Inr (), d'))
      else (Inr (), d))"
  by pat_completeness auto
termination
  by (relation "measure (\<lambda>(address, data, len, offset, d). len)") auto

definition writeMemory :: "int \<Rightarrow> byte list \<Rightarrow> device \<Rightarrow> (error + unit) \<times> device" where
  "writeMemory address data d = writeMemory_loop address data (length data) 0 d"

definition readSimpleMemory :: "int \<Rightarrow> int \<Rightarrow> device \<Rightarrow> (error + pybuf) \<times> device" where
  "readSimpleMemory address len d =
     (if len = 0 then (Inr (Str []), d)
      else if len > 64 then (Inl (ValueError ''Maximum size of 64bytes''), d)
      else (case ctrl_transfer 0xc0 REQ_READ_MEM (drop_bit 16 address) (address AND 0xffff)
                   (Length len) d of
              (ret, d') \<Rightarrow> (Inr (Array ret), d')))"

text \<open>
  The loop of \<open>readMemory\<close>: \<open>data\<close> starts as the string \<open>''\<close>, and each turn adds what
  \<open>readSimpleMemory\<close> returned to it with \<open>+\<close>, as it came.
\<close>

function readMemory_loop ::
  "int \<Rightarrow> byte list \<Rightarrow> int \<Rightarrow> int \<Rightarrow> device \<Rightarrow> (error + byte list) \<times> device" where
  "readMemory_loop address data len offset d =
     (if len \<noteq> 0 then
        (if len \<ge> 64 then
           (case readSimpleMemory (address + offset) 64 d of
              (Inl e, d') \<Rightarrow> (Inl e, d')
            | (Inr ret, d') \<Rightarrow>
                (case str_add data ret of
                   Inl e \<Rightarrow> (Inl e, d')
                 | Inr data' \<Rightarrow> readMemory_loop address data' (len - 64) (offset + 64) d'))
         else
           (case readSimpleMemory (address + offset) len d of
              (Inl e, d') \<Rightarrow> (Inl e, d')
            | (Inr ret, d') \<Rightarrow>
                (case str_add data ret of
                   Inl e \<Rightarrow> (Inl e, d')
                 | Inr data' \<Rightarrow> (Inr data', d'))))
      else (Inr data, d))"
  by pat_completeness auto
termination
  by (relation "measure (\<lambda>(address, data, len, offset, d). nat len)") auto

definition readMemory :: "int \<Rightarrow> int \<Rightarrow> device \<Rightarrow> (error + byte list) \<times> device" where
  "readMemory address len d = readMemory_loop address [] len 0 d"

definition modifyMemory ::
  "int \<Rightarrow> int \<Rightarrow> int \<Rightarrow> int \<Rightarrow> int \<Rightarrow> device \<Rightarrow> (error + unit) \<times> device" where
  "modifyMemory opcode address1 data msk address2 d =
     (case pack_IIII address1 data msk address2 of
        Inl e \<Rightarrow> (Inl e, d)
      | Inr controlData \<Rightarrow>
          (Inr (), snd (ctrl_transfer 0x40 REQ_MODIFY_MEM opcode 0 (Data controlData) d)))"

definition readReg :: "int \<Rightarrow> device \<Rightarrow> (error + int) \<times> device" where
  "readReg address d =
     (case readSimpleMemory address 4 d of
        (Inl e, d') \<Rightarrow> (Inl e, d')
      | (Inr reg, d') \<Rightarrow> (unpack_I (buf_bytes reg), d'))"

definition writeReg :: "int \<Rightarrow> int \<Rightarrow> device \<Rightarrow> (error + unit) \<times> device" where
  "writeReg address val d = modifyMemory 0 address val 0 0 d"

definition maskRegAND :: "int \<Rightarrow> int \<Rightarrow> device \<Rightarrow> (error + unit) \<times> device" where
  "maskRegAND address msk d = modifyMemory 1 address 0 msk 0 d"

definition maskRegOR :: "int \<Rightarrow> int \<Rightarrow> device \<Rightarrow> (error + unit) \<times> device" where
  "maskRegOR address msk d = modifyMemory 2 address 0 msk 0 d"

definition maskRegNAND :: "int \<Rightarrow> int \<Rightarrow> device \<Rightarrow> (error + unit) \<times> device" where
  "maskRegNAND address msk d = modifyMemory 3 address 0 msk 0 d"

definition writeRegBits :: "int \<Rightarrow> int \<Rightarrow> int \<Rightarrow> device \<Rightarrow> (error + unit) \<times> device" where
  "writeRegBits address msk val d = modifyMemory 4 address val msk 0 d"

definition copyReg :: "int \<Rightarrow> int \<Rightarrow> device \<Rightarrow> (error + unit) \<times> device" where
  "copyReg source dest d = modifyMemory 5 dest 0 0 source d"

definition copyRegMaskAND :: "int \<Rightarrow> int \<Rightarrow> int \<Rightarrow> device \<Rightarrow> (error + unit) \<times> device" where
  "copyRegMaskAND source dest msk d = modifyMemory 6 dest 0 msk source d"

definition memcpy :: "int \<Rightarrow> int \<Rightarrow> int \<Rightarrow> device \<Rightarrow> (error + unit) \<times> device" where
  "memcpy dest src n d = modifyMemory 7 src n 0 dest d"

definition run :: "int \<Rightarrow> bool \<Rightarrow> device \<Rightarrow> (error + unit) \<times> device" where
  "run address keep_power d =
     (let data = (if keep_power then address OR FLAG_KEEP_POWER_ON else address)
      in case pack_I data of
           Inl e \<Rightarrow> (Inl e, d)
         | Inr controlData \<Rightarrow>
             (Inr (), snd (ctrl_transfer 0x40 REQ_RUN_IN_ADDR (drop_bit 16 address)
                             (address AND 0xffff) (Data controlData) d)))"

text \<open>
  The bulk phase of \<open>writeLargeMemory\<close>; \<open>ep\<close> is what the endpoint scan returned, and a
  write on None raises \<open>AttributeError\<close>.
\<close>

function writeLargeMemory_loop ::
  "nat option \<Rightarrow> byte list \<Rightarrow> int \<Rightarrow> int \<Rightarrow> int \<Rightarrow> device \<Rightarrow> (error + unit) \<times> device" where
  "writeLargeMemory_loop ep data blockLength offset blockCount d =
     (if blockCount > 0 then
        (case ep of
           None \<Rightarrow> (Inl AttributeError, d)
         | Some e \<Rightarrow>
             writeLargeMemory_loop ep data blockLength (offset + blockLength) (blockCount - 1)
               (ep_write e (py_slice data offset (offset + blockLength)) 100 d))
      else (Inr (), d))"
  by pat_completeness auto
termination
  by (relation "measure (\<lambda>(ep, data, blockLength, offset, blockCount, d). nat blockCount)") auto

definition writeLargeMemory ::
  "int \<Rightarrow> byte list \<Rightarrow> int \<Rightarrow> bool \<Rightarrow> device \<Rightarrow> (error + unit) \<times> device" where
  "writeLargeMemory address data blockLength appendZeros d =
     (if blockLength = 0 then (Inl ZeroDivisionError, d)
      else if \<not> appendZeros \<and> int (length data) mod blockLength \<noteq> 0
      then (Inl (ValueError ''Large Data must be a multiple of block length''), d)
      else
        let data = (if appendZeros
                    then data @ replicate (nat (int (length data) mod blockLength)) 0
                    else data);
            blockCount = int_truediv (int (length data)) blockLength
        in case pack_IIII address (int (length data)) 0 0 of
             Inl e \<Rightarrow> (Inl e, d)
           | Inr controlData \<Rightarrow>
               let d1 = get_active_configuration d;
                   (ep, d2) = find_descriptor ENDPOINT_OUT d1;
                   d3 = snd (ctrl_transfer 0x40 REQ_WR_LARGE_MEM blockLength blockCount
                               (Data controlData) d2)
               in writeLargeMemory_loop ep data blockLength 0 blockCount d3)"



definition identify :: "device \<Rightarrow> (error + byte list) \<times> device" where
  "identify d =
     (case ctrl_transfer 0xc0 REQ_IDENTIFY_HOST 0 0 (Length 8) d of (ret, d') \<Rightarrow> (Inr ret, d'))"

text \<open>
  \<open>sendPassword\<close> compares the name \<open>length\<close>, which is neither a parameter nor assigned in
  the method, so it is looked up among the globals of the module. The payload is the list
  of the character codes of the password.
\<close>

definition sendPassword :: "byte list \<Rightarrow> device \<Rightarrow> (error + unit) \<times> device" where
  "sendPassword password d =
     (case lookup_global ''length'' of
        Inl e \<Rightarrow> (Inl e, d)
      | Inr len \<Rightarrow>
          if len \<noteq> PyInt 64 then (Inl (ValueError ''Password size is 64bytes''), d)
          else (Inr (), snd (ctrl_transfer 0x40 REQ_PASSWORD 0 0 (Data password) d)))"

definition nop :: "device \<Rightarrow> (error + unit) \<times> device" where
  "nop d = (Inr (), snd (ctrl_transfer 0x40 REQ_NOP 0 0 NoData d))"

section \<open>Arithmetic of addresses, slices and the stub memory\<close>

lemma and_ffff: "(a::int) AND 0xffff = a mod 2 ^ 16"
proof -
  have "(a::int) AND mask 16 = a mod 2 ^ 16"
    by (simp only: take_bit_eq_mask [symmetric] take_bit_eq_mod)
  then show ?thesis by (simp add: mask_eq_exp_minus_1)
qed

lemma split32: "(a::int) mod 4294967296 = a div 65536 mod 65536 * 65536 + a mod 65536"
proof -
  have "a mod (65536 * 65536) = 65536 * (a div 65536 mod 65536) + a mod 65536"
    by (rule zmod_zmult2_eq) simp
  moreover have "(65536 * 65536 :: int) = 4294967296" by simp
  ultimately show ?thesis by (simp only: mult.commute)
qed

lemma wire_address_split: "wire_address (drop_bit 16 a) (a AND 0xffff) = a mod 2 ^ 32"
  unfolding wire_address_def and_ffff drop_bit_eq_div
  using split32 [of a] by simp

text \<open>The four bytes of \<open>le32\<close> read back, least significant first, give the value.\<close>

lemma unpack_I_le32: "0 \<le> x \<Longrightarrow> x < 2 ^ 32 \<Longrightarrow> unpack_I (le32 x) = Inr x"
proof -
  assume x: "0 \<le> x" "x < 2 ^ 32"
  have b: "uint (word_of_int y :: byte) = y mod 256" for y
    by (simp add: uint_word_of_int)
  define q1 where "q1 = x div 256"
  define q2 where "q2 = q1 div 256"
  define q3 where "q3 = q2 div 256"
  have e1: "x = 256 * q1 + x mod 256" by (simp add: q1_def)
  have e2: "q1 = 256 * q2 + q1 mod 256" by (simp add: q2_def)
  have e3: "q2 = 256 * q3 + q2 mod 256" by (simp add: q3_def)
  have d2: "x div 65536 = q2"
    using zdiv_zmult2_eq [of 256 x 256] by (simp add: q1_def q2_def)
  have d3: "x div 16777216 = q3"
    using zdiv_zmult2_eq [of 256 x 65536] by (simp add: d2 q3_def)
  have "q3 < 256" using x by (simp add: d3 [symmetric] div_less_iff_less_mult)
  moreover have "0 \<le> q3" using x by (simp add: d3 [symmetric] pos_imp_zdiv_nonneg_iff)
  ultimately have m3: "q3 mod 256 = q3" by simp
  have "x mod 256 + 256 * (q1 mod 256) + 65536 * (q2 mod 256) + 16777216 * q3 = x"
    using e1 e2 e3 by linarith
  then show ?thesis
    by (simp add: unpack_I_def le32_def b drop_bit_eq_div d2 d3 m3 q1_def [symmetric])
qed

lemma py_slice_chunk: "py_slice xs (int i) (int i + 64) = take 64 (drop i xs)"
proof -
  have a: "clamp_index (length xs) (int i) = min (length xs) i"
    by (simp add: clamp_index_def)
  have b: "clamp_index (length xs) (int i + 64) = min (length xs) (i + 64)"
    by (simp add: clamp_index_def nat_add_distrib)
  show ?thesis
  proof (cases "i < length xs")
    case True
    then show ?thesis
      by (simp add: py_slice_def a b min_def)
  next
    case False
    then show ?thesis
      by (simp add: py_slice_def a b)
  qed
qed

lemma store_append: "store m a (xs @ ys) = store (store m a xs) (a + int (length xs)) ys"
  by (induction xs arbitrary: m a) (simp_all add: add.assoc)

lemma store_mod: "store m (a mod 2 ^ 32) bs = store m a bs"
proof (induction bs arbitrary: m a)
  case Nil
  show ?case by simp
next
  case (Cons b bs)
  have "store m' (a mod 2 ^ 32 + 1) bs = store m' (a + 1) bs" for m'
  proof -
    have "store m' (a mod 2 ^ 32 + 1) bs = store m' ((a mod 2 ^ 32 + 1) mod 2 ^ 32) bs"
      by (rule Cons.IH [symmetric])
    also have "(a mod 2 ^ 32 + 1) mod 2 ^ 32 = (a + 1) mod (2 ^ 32 :: int)"
      by (rule mod_add_left_eq)
    also have "store m' ((a + 1) mod 2 ^ 32) bs = store m' (a + 1) bs"
      by (rule Cons.IH)
    finally show ?thesis .
  qed
  then show ?case by simp
qed

lemma store_outside: "\<forall>j<length bs. (a + int j) mod 2 ^ 32 \<noteq> x \<Longrightarrow> store m a bs x = m x"
proof (induction bs arbitrary: m a)
  case Nil
  show ?case by simp
next
  case (Cons b bs)
  have "\<forall>j<length bs. (a + 1 + int j) mod 2 ^ 32 \<noteq> x"
  proof (intro allI impI)
    fix j assume "j < length bs"
    then have "Suc j < length (b # bs)" by simp
    with Cons.prems have "(a + int (Suc j)) mod 2 ^ 32 \<noteq> x" by blast
    then show "(a + 1 + int j) mod 2 ^ 32 \<noteq> x" by (simp add: add.commute add.left_commute)
  qed
  then have "store (m(a mod 2 ^ 32 := b)) (a + 1) bs x = (m(a mod 2 ^ 32 := b)) x"
    by (rule Cons.IH)
  moreover from Cons.prems have "a mod 2 ^ 32 \<noteq> x" by fastforce
  ultimately show ?case by simp
qed

lemma no_wrap: "j < n \<Longrightarrow> n < 2 ^ 32 \<Longrightarrow> (a + 1 + int j) mod 2 ^ 32 \<noteq> a mod (2 ^ 32 :: int)"
proof
  assume j: "j < n" and n: "n < 2 ^ 32" and eq: "(a + 1 + int j) mod 2 ^ 32 = a mod (2 ^ 32 :: int)"
  from eq have "(2 ^ 32 :: int) dvd (a + 1 + int j) - a"
    by (simp only: mod_eq_dvd_iff)
  then have "(2 ^ 32 :: int) dvd 1 + int j" by simp
  then have "(2 ^ 32 :: int) \<le> 1 + int j" by (rule zdvd_imp_le) simp
  with j n show False by simp
qed

lemma store_nth:
  "length bs \<le> 2 ^ 32 \<Longrightarrow> k < length bs \<Longrightarrow> store m a bs ((a + int k) mod 2 ^ 32) = bs ! k"
proof (induction bs arbitrary: m a k)
  case Nil
  then show ?case by simp
next
  case (Cons b bs)
  show ?case
  proof (cases k)
    case 0
    from Cons.prems(1) have len: "length bs < 2 ^ 32" by simp
    have "\<forall>j<length bs. (a + 1 + int j) mod 2 ^ 32 \<noteq> a mod 2 ^ 32"
    proof (intro allI impI)
      fix j assume "j < length bs"
      then show "(a + 1 + int j) mod 2 ^ 32 \<noteq> a mod 2 ^ 32"
        using len by (rule no_wrap)
    qed
    then have "store (m(a mod 2 ^ 32 := b)) (a + 1) bs (a mod 2 ^ 32) = b"
      by (simp add: store_outside)
    with 0 show ?thesis by simp
  next
    case (Suc k')
    with Cons.prems have "store (m(a mod 2 ^ 32 := b)) (a + 1) bs ((a + 1 + int k') mod 2 ^ 32) = bs ! k'"
      by (intro Cons.IH) simp_all
    with Suc show ?thesis by (simp add: add.assoc)
  qed
qed

lemma load_store: "length bs \<le> 2 ^ 32 \<Longrightarrow> load (store m a bs) a (length bs) = bs"
proof (rule nth_equalityI)
  show "length (load (store m a bs) a (length bs)) = length bs"
    by (simp add: load_def)
next
  fix i assume "i < length (load (store m a bs) a (length bs))"
  then have i: "i < length bs" by (simp add: load_def)
  assume "length bs \<le> 2 ^ 32"
  then have "store m a bs ((a + int i) mod 2 ^ 32) = bs ! i"
    using i by (rule store_nth)
  with i show "load (store m a bs) a (length bs) ! i = bs ! i"
    by (simp add: load_def)
qed

lemma load_mod: "load m (a mod 2 ^ 32) n = load m a n"
  by (simp add: load_def mod_add_left_eq)

lemma load_add: "load m a (i + j) = load m a i @ load m (a + int i) j"
proof -
  have "[0..<i + j] = [0..<i] @ [i..<i + j]"
    by (rule upt_add_eq_append) simp
  moreover have "[i..<i + j] = map (\<lambda>k. k + i) [0..<j]"
    by (simp only: map_add_upt add.commute [of j i])
  ultimately have "load m a (i + j) = load m a i @ map (\<lambda>k. m ((a + int (k + i)) mod 2 ^ 32)) [0..<j]"
    by (simp add: load_def o_def)
  also have "map (\<lambda>k. m ((a + int (k + i)) mod 2 ^ 32)) [0..<j] = load m (a + int i) j"
    unfolding load_def by (rule map_cong) (simp_all add: add.commute add.left_commute)
  finally show ?thesis .
qed

lemma or_flag_range: "0 \<le> a \<Longrightarrow> a < 2 ^ 32 \<Longrightarrow> 0 \<le> a OR (16::int) \<and> a OR 16 < 2 ^ 32"
proof -
  assume a: "0 \<le> a" "a < 2 ^ 32"
  have "(16::int) < 2 ^ 32" by simp
  with a have "a OR 16 < 2 ^ 32" by (rule OR_upper)
  moreover from a have "0 \<le> a OR 16" by simp
  ultimately show ?thesis by simp
qed

lemmas stub_defs = ctrl_transfer_def log_event_def get_active_configuration_def
  find_descriptor_def ep_write_def ep_read_def REQ_WRITE_MEM_def REQ_READ_MEM_def
  REQ_MODIFY_MEM_def REQ_RUN_IN_ADDR_def REQ_WR_LARGE_MEM_def REQ_RD_LARGE_MEM_def
  ENDPOINT_OUT_def ENDPOINT_IN_def endpoint_direction_def

section \<open>What a large transfer logs\<close>












section \<open>The chunk loops\<close>

lemma writeSimpleMemory_chunk:
  "length c \<le> 64 \<Longrightarrow>
   writeSimpleMemory a c d =
     (Inr (), d\<lparr>trace := trace d @
                  [Ctrl \<lparr>bmRequestType = 0x40, bRequest = 0x01, wValue = drop_bit 16 a,
                         wIndex = a AND 0xffff, data_or_wLength = Data c\<rparr>],
                memory := store (memory d) a c\<rparr>)"
proof -
  have "store (memory d) (a mod 4294967296) c = store (memory d) a c"
    using store_mod [of "memory d" a c] by simp
  then show "length c \<le> 64 \<Longrightarrow> ?thesis"
    by (simp add: writeSimpleMemory_def ctrl_transfer_def log_event_def REQ_WRITE_MEM_def
        wire_address_split)
qed

lemma chunk_count_step: "64 * k < n \<Longrightarrow> [k..<(n + 63) div 64] = k # [Suc k..<(n + 63) div 64]"
  by (rule upt_conv_Cons) arith

lemma chunk_count_last: "64 * k < n \<Longrightarrow> n - 64 * k \<le> 64 \<Longrightarrow> (n + 63) div 64 = Suc k"
  by arith

lemma chunk_count_done: "64 * k = (n::nat) \<Longrightarrow> (n + 63) div 64 = k"
  by arith


lemma writeMemory_loop_step:
  "len \<noteq> 0 \<Longrightarrow>
   writeSimpleMemory (address + offset) (py_slice data offset (offset + 64)) d = (Inr (), d') \<Longrightarrow>
   writeMemory_loop address data len offset d =
     (if len > 64 then writeMemory_loop address data (len - 64) (offset + 64) d' else (Inr (), d'))"
  by (subst writeMemory_loop.simps) (simp del: writeMemory_loop.simps)

lemma writeMemory_loop_chunks:
  "64 * k \<le> length data \<Longrightarrow>
   writeMemory_loop address data (length data - 64 * k) (int (64 * k)) d =
     (Inr (), d\<lparr>trace := trace d @
                  map (\<lambda>i. Ctrl \<lparr>bmRequestType = 0x40, bRequest = 0x01,
                                  wValue = drop_bit 16 (address + 64 * int i),
                                  wIndex = (address + 64 * int i) AND 0xffff,
                                  data_or_wLength = Data (take 64 (drop (64 * i) data))\<rparr>)
                      [k..<(length data + 63) div 64],
                memory := store (memory d) (address + 64 * int k) (drop (64 * k) data)\<rparr>)"
proof (induction "length data - 64 * k" arbitrary: k d rule: less_induct)
  case less
  let ?len = "length data - 64 * k"
  let ?c = "take 64 (drop (64 * k) data)"
  let ?ev = "\<lambda>i. Ctrl \<lparr>bmRequestType = 0x40, bRequest = 0x01,
                       wValue = drop_bit 16 (address + 64 * int i),
                       wIndex = (address + 64 * int i) AND 0xffff,
                       data_or_wLength = Data (take 64 (drop (64 * i) data))\<rparr>"
  let ?d' = "d\<lparr>trace := trace d @ [?ev k],
               memory := store (memory d) (address + 64 * int k) ?c\<rparr>"
  have sl: "py_slice data (int (64 * k)) (int (64 * k) + 64) = ?c"
    by (rule py_slice_chunk)
  have "writeSimpleMemory (address + int (64 * k)) ?c d = (Inr (), ?d')"
    by (subst writeSimpleMemory_chunk) simp_all
  then have ws: "writeSimpleMemory (address + int (64 * k))
                   (py_slice data (int (64 * k)) (int (64 * k) + 64)) d = (Inr (), ?d')"
    by (simp only: sl)
  show ?case
  proof (cases "?len = 0")
    case True
    with less.prems have e: "64 * k = length data" by simp
    then have "(length data + 63) div 64 = k" by (rule chunk_count_done)
    with True e show ?thesis
      by (subst writeMemory_loop.simps) simp
  next
    case False
    then have lt: "64 * k < length data" by simp
    show ?thesis
    proof (cases "?len > 64")
      case False
      with lt have n: "(length data + 63) div 64 = Suc k"
        by (intro chunk_count_last) simp_all
      from False have c: "?c = drop (64 * k) data" by simp
      have "writeMemory_loop address data ?len (int (64 * k)) d = (Inr (), ?d')"
        using writeMemory_loop_step [OF \<open>?len \<noteq> 0\<close> ws] False by (simp only: if_False)
      then show ?thesis by (simp add: n c del: writeMemory_loop.simps)
    next
      case True
      then have le: "64 * Suc k \<le> length data" by simp
      have sm: "length data - 64 * Suc k < length data - 64 * k" using True by simp
      have lc: "length ?c = 64" using True by simp
      have step: "writeMemory_loop address data ?len (int (64 * k)) d =
                  writeMemory_loop address data (length data - 64 * Suc k) (int (64 * Suc k)) ?d'"
      proof -
        have "?len - 64 = length data - 64 * Suc k" by simp
        moreover have "int (64 * k) + 64 = int (64 * Suc k)" by simp
        ultimately show ?thesis
          using writeMemory_loop_step [OF \<open>?len \<noteq> 0\<close> ws] True by (simp only: if_True)
      qed
      have mem: "store (store (memory d) (address + 64 * int k) ?c) (address + 64 * int (Suc k))
                   (drop (64 * Suc k) data) = store (memory d) (address + 64 * int k) (drop (64 * k) data)"
      proof -
        have "drop (64 * k) data = ?c @ drop (64 * Suc k) data"
          by (simp add: drop_drop [symmetric] add.commute del: drop_drop)
        then have "store (memory d) (address + 64 * int k) (drop (64 * k) data) =
                   store (memory d) (address + 64 * int k) (?c @ drop (64 * Suc k) data)" by simp
        also have "\<dots> = store (store (memory d) (address + 64 * int k) ?c)
                             (address + 64 * int k + int (length ?c)) (drop (64 * Suc k) data)"
          by (rule store_append)
        also have "address + 64 * int k + int (length ?c) = address + 64 * int (Suc k)"
          by (simp only: lc) simp
        finally show ?thesis by simp
      qed
      let ?N = "(length data + 63) div 64"
      have ih: "writeMemory_loop address data (length data - 64 * Suc k) (int (64 * Suc k)) ?d' =
                  (Inr (), ?d'\<lparr>trace := trace ?d' @ map ?ev [Suc k..<?N],
                               memory := store (memory ?d') (address + 64 * int (Suc k))
                                           (drop (64 * Suc k) data)\<rparr>)"
        using sm le by (rule less.hyps)
      have "[k..<?N] = k # [Suc k..<?N]"
        using lt by (rule chunk_count_step)
      then have tr: "trace ?d' @ map ?ev [Suc k..<?N] = trace d @ map ?ev [k..<?N]"
        by simp
      have md: "memory ?d' = store (memory d) (address + 64 * int k) ?c"
        by simp
      have mm: "store (memory ?d') (address + 64 * int (Suc k)) (drop (64 * Suc k) data) =
                store (memory d) (address + 64 * int k) (drop (64 * k) data)"
        by (simp only: md mem)
      show ?thesis
        by (simp only: step ih tr mm) simp
    qed
  qed
qed

lemma chunks_concat:
  "64 * k \<le> length data \<Longrightarrow>
   concat (map (\<lambda>i. take 64 (drop (64 * i) data)) [k..<(length data + 63) div 64]) =
     drop (64 * k) data"
proof (induction "length data - 64 * k" arbitrary: k rule: less_induct)
  case less
  let ?N = "(length data + 63) div 64"
  show ?case
  proof (cases "64 * k = length data")
    case True
    then have "?N = k" by (rule chunk_count_done)
    with True show ?thesis by simp
  next
    case False
    with less.prems have lt: "64 * k < length data" by simp
    then have u: "[k..<?N] = k # [Suc k..<?N]" by (rule chunk_count_step)
    show ?thesis
    proof (cases "length data - 64 * k \<le> 64")
      case True
      with lt have "?N = Suc k" by (rule chunk_count_last)
      with True u show ?thesis by simp
    next
      case False
      then have le: "64 * Suc k \<le> length data" by simp
      have sm: "length data - 64 * Suc k < length data - 64 * k" using False by simp
      have "concat (map (\<lambda>i. take 64 (drop (64 * i) data)) [Suc k..<?N]) = drop (64 * Suc k) data"
        using sm le by (rule less.hyps)
      moreover have "drop (64 * k) data = take 64 (drop (64 * k) data) @ drop (64 * Suc k) data"
        by (simp add: drop_drop [symmetric] add.commute del: drop_drop)
      ultimately show ?thesis
        by (simp only: u list.map concat.simps)
    qed
  qed
qed

lemma readSimpleMemory_chunk:
  "len \<noteq> 0 \<Longrightarrow> len \<le> 64 \<Longrightarrow>
   readSimpleMemory a len d =
     (Inr (Array (load (memory d) a (nat len))),
      d\<lparr>trace := trace d @
            [Ctrl \<lparr>bmRequestType = 0xc0, bRequest = 0x02, wValue = drop_bit 16 a,
                   wIndex = a AND 0xffff, data_or_wLength = Length len\<rparr>]\<rparr>)"
proof -
  have "load (memory d) (a mod 4294967296) (nat len) = load (memory d) a (nat len)"
    using load_mod [of "memory d" a "nat len"] by simp
  then show "len \<noteq> 0 \<Longrightarrow> len \<le> 64 \<Longrightarrow> ?thesis"
    by (simp add: readSimpleMemory_def ctrl_transfer_def log_event_def REQ_WRITE_MEM_def
        REQ_READ_MEM_def wire_address_split)
qed

text \<open>What \<open>writeMemory\<close> leaves in the memory of the stub is the buffer.\<close>

lemma writeMemory_stores:
  assumes "length data \<le> 4096"
  shows "load (memory (snd (writeMemory addr data d))) addr (length data) = data"
proof -
  have "memory (snd (writeMemory addr data d)) = store (memory d) addr data"
    using writeMemory_loop_chunks [of 0 data addr d] by (simp add: writeMemory_def)
  moreover from assms have "length data \<le> 2 ^ 32" by simp
  then have "load (store (memory d) addr data) addr (length data) = data"
    by (rule load_store)
  ultimately show ?thesis by simp
qed

text \<open>Every read of a length other than 0 stops at its first \<open>+\<close>.\<close>

lemma readMemory_raises: "len \<noteq> 0 \<Longrightarrow> fst (readMemory address len d) = Inl TypeError"
proof -
  assume nz: "len \<noteq> 0"
  show ?thesis
  proof (cases "len \<ge> 64")
    case True
    have "fst (readSimpleMemory (address + 0) 64 d) =
            Inr (Array (load (memory d) (address + 0) (nat 64)))"
      by (subst readSimpleMemory_chunk) simp_all
    then show ?thesis
      unfolding readMemory_def using True nz
      by (subst readMemory_loop.simps)
         (simp add: split_beta del: readMemory_loop.simps split: sum.splits prod.splits)
  next
    case False
    then have "fst (readSimpleMemory (address + 0) len d) =
            Inr (Array (load (memory d) (address + 0) (nat len)))"
      using nz by (subst readSimpleMemory_chunk) simp_all
    then show ?thesis
      unfolding readMemory_def using False nz
      by (subst readMemory_loop.simps)
         (simp add: split_beta del: readMemory_loop.simps split: sum.splits prod.splits)
  qed
qed

section \<open>Argument checks\<close>

text \<open>
  Claim C7. \<open>writeSimpleMemory\<close> raises \<open>ValueError\<close> for every buffer longer than 64
  bytes and \<open>readSimpleMemory\<close> raises \<open>ValueError\<close> for every length above 64, both with
  the device untouched, so before any transfer; \<open>readSimpleMemory\<close> with length 0 returns the
  empty buffer and leaves the device untouched.
\<close>

theorem simple_memory_size_guard:
  "(length data > 64 \<longrightarrow>
      writeSimpleMemory address data d = (Inl (ValueError ''Maximum size of 64bytes''), d))
   \<and> (len > 64 \<longrightarrow>
      readSimpleMemory address len d = (Inl (ValueError ''Maximum size of 64bytes''), d))
   \<and> readSimpleMemory address 0 d = (Inr (Str []), d)"
  by (simp add: writeSimpleMemory_def readSimpleMemory_def)

theorem simple_memory_size_guard_witness:
  "length (replicate 65 (0::byte)) > 64
   \<and> writeSimpleMemory 0x1000 (replicate 65 0) dev0 =
       (Inl (ValueError ''Maximum size of 64bytes''), dev0)
   \<and> (65::int) > 64
   \<and> readSimpleMemory 0x1000 65 dev0 = (Inl (ValueError ''Maximum size of 64bytes''), dev0)
   \<and> readSimpleMemory 0x1000 0 dev0 = (Inr (Str []), dev0)"
  using simple_memory_size_guard [of "replicate 65 0" "0x1000" dev0 65] by simp

text \<open>
  Claim C6. With \<open>appendZeros\<close> false and a data length that is not a multiple of the block
  length, \<open>writeLargeMemory\<close> raises \<open>ValueError\<close> and the device is as it was: no
  configuration request, no announcement, no bulk write. (A block length of 0 is outside
  the block sizes of the data model; the remainder then raises \<open>ZeroDivisionError\<close>.)
\<close>

theorem writeLargeMemory_rejects_partial_block:
  "blockLength \<noteq> 0 \<Longrightarrow> int (length data) mod blockLength \<noteq> 0 \<Longrightarrow>
   writeLargeMemory address data blockLength False d =
     (Inl (ValueError ''Large Data must be a multiple of block length''), d)"
  by (simp add: writeLargeMemory_def)

theorem writeLargeMemory_rejects_partial_block_witness:
  "(64::int) \<noteq> 0 \<and> int (length (replicate 65 (0::byte))) mod 64 \<noteq> 0 \<and>
   writeLargeMemory 0x1000 (replicate 65 0) 64 False dev0 =
     (Inl (ValueError ''Large Data must be a multiple of block length''), dev0)"
  using writeLargeMemory_rejects_partial_block [of 64 "replicate 65 0" "0x1000" dev0] by simp

text \<open>
  Claim C2. The claim has \<open>sendPassword\<close> raise \<open>ValueError\<close> exactly for a password that is
  not 64 bytes long and send a 64-byte one. The method tests the name \<open>length\<close>, which
  nothing defines: with a password of 64 bytes it raises \<open>NameError\<close> and sends nothing.
\<close>

theorem sendPassword_undefined_name:
  "sendPassword (replicate 64 0x41) dev0 = (Inl (NameError ''length''), dev0)"
  by (simp add: sendPassword_def lookup_global_def module_globals_def)

section \<open>The modify-memory request\<close>

text \<open>
  Claim C10. \<open>modifyMemory\<close> does not look at its sub-opcode: for every integer \<open>opcode\<close>,
  and four fields that fit 32 bits, it raises nothing and issues exactly one control
  transfer, with the opcode in \<open>wValue\<close>, 0 in \<open>wIndex\<close> and the fields
  \<open>address1\<close>, \<open>data\<close>, \<open>mask\<close>, \<open>address2\<close> packed in this order, each least
  significant byte first.
\<close>

theorem modifyMemory_no_opcode_check:
  "0 \<le> address1 \<and> address1 < 2 ^ 32 \<Longrightarrow> 0 \<le> data \<and> data < 2 ^ 32 \<Longrightarrow>
   0 \<le> msk \<and> msk < 2 ^ 32 \<Longrightarrow> 0 \<le> address2 \<and> address2 < 2 ^ 32 \<Longrightarrow>
   modifyMemory opcode address1 data msk address2 d =
     (Inr (), d\<lparr>trace := trace d @
        [Ctrl \<lparr>bmRequestType = 0x40, bRequest = 0x04, wValue = opcode, wIndex = 0,
               data_or_wLength = Data (le32 address1 @ le32 data @ le32 msk @ le32 address2)\<rparr>]\<rparr>)"
  by (simp add: modifyMemory_def pack_IIII_def pack_I_def ctrl_transfer_def
      log_event_def REQ_MODIFY_MEM_def REQ_WRITE_MEM_def REQ_READ_MEM_def
      REQ_WR_LARGE_MEM_def REQ_RD_LARGE_MEM_def)

theorem modifyMemory_no_opcode_check_witness:
  "(0::int) \<le> 0x1000 \<and> (0x1000::int) < 2 ^ 32 \<and> (0::int) \<le> 1 \<and> (1::int) < 2 ^ 32 \<and>
   (0::int) \<le> 2 \<and> (2::int) < 2 ^ 32 \<and> (0::int) \<le> 0x2000 \<and> (0x2000::int) < 2 ^ 32 \<and>
   modifyMemory (-99) 0x1000 1 2 0x2000 dev0 =
     (Inr (), dev0\<lparr>trace := trace dev0 @
        [Ctrl \<lparr>bmRequestType = 0x40, bRequest = 0x04, wValue = -99, wIndex = 0,
               data_or_wLength = Data (le32 0x1000 @ le32 1 @ le32 2 @ le32 0x2000)\<rparr>]\<rparr>)"
  using modifyMemory_no_opcode_check [of "0x1000" 1 2 "0x2000" "-99" dev0] by simp

text \<open>
  Claim C5. The claim puts the destination of the block copy in the first payload field
  and the source in the fourth, as \<open>copyReg\<close> and \<open>copyRegMaskAND\<close> do. \<open>memcpy\<close> passes
  them the other way round: copying 4 words from 0x2000 to 0x1000 sends the source 0x2000
  first and the destination 0x1000 last.
\<close>

theorem memcpy_fields_swapped:
  "memcpy 0x1000 0x2000 4 dev0 =
     (Inr (), dev0\<lparr>trace :=
        [Ctrl \<lparr>bmRequestType = 0x40, bRequest = 0x04, wValue = 7, wIndex = 0,
               data_or_wLength =
                 Data [0x00, 0x20, 0, 0,  4, 0, 0, 0,  0, 0, 0, 0,  0x00, 0x10, 0, 0]\<rparr>]\<rparr>)"
  by (simp add: memcpy_def modifyMemory_def pack_IIII_def pack_I_def le32_def ctrl_transfer_def
      log_event_def dev0_def REQ_MODIFY_MEM_def REQ_WRITE_MEM_def REQ_READ_MEM_def
      REQ_WR_LARGE_MEM_def REQ_RD_LARGE_MEM_def drop_bit_eq_div)

section \<open>Where the address travels\<close>

text \<open>
  Claim C8, as stated: every operation that puts an address on the wire carries its high
  half in \<open>wValue\<close> and its low half in \<open>wIndex\<close>. \<open>modifyMemory\<close> does not: the
  address 0x12345678 goes into the payload, and \<open>wValue\<close> and \<open>wIndex\<close> hold the
  sub-opcode and 0, not 0x1234 and 0x5678.
\<close>

theorem modifyMemory_address_in_payload:
  "trace (snd (modifyMemory 0 0x12345678 0 0 0 dev0)) =
     [Ctrl \<lparr>bmRequestType = 0x40, bRequest = 0x04, wValue = 0, wIndex = 0,
            data_or_wLength = Data [0x78, 0x56, 0x34, 0x12,  0, 0, 0, 0,  0, 0, 0, 0,  0, 0, 0, 0]\<rparr>]"
  by (simp add: modifyMemory_def dev0_def pack_IIII_def pack_I_def le32_def stub_defs drop_bit_eq_div)

text \<open>
  Claim C8, amended: for \<open>writeSimpleMemory\<close>, \<open>readSimpleMemory\<close> and \<open>run\<close>, and every
  32-bit address, the control transfer carries the high 16 bits of the address in
  \<open>wValue\<close> and the low 16 bits in \<open>wIndex\<close>; both fit 16 bits and together give the
  address back.
\<close>

theorem address_halves_in_wValue_wIndex:
  assumes "0 \<le> address" and "address < 2 ^ 32"
  shows "(length data \<le> 64 \<longrightarrow>
            trace (snd (writeSimpleMemory address data d)) = trace d @
              [Ctrl \<lparr>bmRequestType = 0x40, bRequest = 0x01, wValue = address div 2 ^ 16,
                     wIndex = address mod 2 ^ 16, data_or_wLength = Data data\<rparr>])
       \<and> (0 < len \<and> len \<le> 64 \<longrightarrow>
            trace (snd (readSimpleMemory address len d)) = trace d @
              [Ctrl \<lparr>bmRequestType = 0xc0, bRequest = 0x02, wValue = address div 2 ^ 16,
                     wIndex = address mod 2 ^ 16, data_or_wLength = Length len\<rparr>])
       \<and> trace (snd (run address keep_power d)) = trace d @
              [Ctrl \<lparr>bmRequestType = 0x40, bRequest = 0x05, wValue = address div 2 ^ 16,
                     wIndex = address mod 2 ^ 16,
                     data_or_wLength = Data (le32 (if keep_power then address OR 0x10 else address))\<rparr>]
       \<and> 0 \<le> address div 2 ^ 16 \<and> address div 2 ^ 16 < 2 ^ 16
       \<and> 0 \<le> address mod 2 ^ 16 \<and> address mod 2 ^ 16 < 2 ^ 16
       \<and> address div 2 ^ 16 * 2 ^ 16 + address mod 2 ^ 16 = address"
proof -
  have w: "length data \<le> 64 \<longrightarrow>
            trace (snd (writeSimpleMemory address data d)) = trace d @
              [Ctrl \<lparr>bmRequestType = 0x40, bRequest = 0x01, wValue = address div 2 ^ 16,
                     wIndex = address mod 2 ^ 16, data_or_wLength = Data data\<rparr>]"
    by (simp add: writeSimpleMemory_def stub_defs and_ffff drop_bit_eq_div)
  have r: "0 < len \<and> len \<le> 64 \<longrightarrow>
            trace (snd (readSimpleMemory address len d)) = trace d @
              [Ctrl \<lparr>bmRequestType = 0xc0, bRequest = 0x02, wValue = address div 2 ^ 16,
                     wIndex = address mod 2 ^ 16, data_or_wLength = Length len\<rparr>]"
    by (simp add: readSimpleMemory_def stub_defs and_ffff drop_bit_eq_div)
  have p1: "pack_I (address OR 16) = Inr (le32 (address OR 16))"
    using assms or_flag_range [of address] by (simp add: pack_I_def)
  have p2: "pack_I address = Inr (le32 address)"
    using assms by (simp add: pack_I_def)
  have u: "trace (snd (run address keep_power d)) = trace d @
              [Ctrl \<lparr>bmRequestType = 0x40, bRequest = 0x05, wValue = address div 2 ^ 16,
                     wIndex = address mod 2 ^ 16,
                     data_or_wLength = Data (le32 (if keep_power then address OR 0x10 else address))\<rparr>]"
    by (simp add: run_def FLAG_KEEP_POWER_ON_def p1 p2 stub_defs and_ffff drop_bit_eq_div Let_def)
  have b: "0 \<le> address div 2 ^ 16 \<and> address div 2 ^ 16 < 2 ^ 16"
    using assms by (simp add: pos_imp_zdiv_nonneg_iff div_less_iff_less_mult)
  show ?thesis using w r u b by simp
qed

theorem address_halves_in_wValue_wIndex_witness:
  "(0::int) \<le> 0x12345678 \<and> (0x12345678::int) < 2 ^ 32
   \<and> length [1, 2, 3 :: byte] \<le> 64
   \<and> trace (snd (writeSimpleMemory 0x12345678 [1, 2, 3] dev0)) = trace dev0 @
         [Ctrl \<lparr>bmRequestType = 0x40, bRequest = 0x01, wValue = 0x1234, wIndex = 0x5678,
                data_or_wLength = Data [1, 2, 3]\<rparr>]
   \<and> (0::int) < 4 \<and> (4::int) \<le> 64
   \<and> trace (snd (readSimpleMemory 0x12345678 4 dev0)) = trace dev0 @
         [Ctrl \<lparr>bmRequestType = 0xc0, bRequest = 0x02, wValue = 0x1234, wIndex = 0x5678,
                data_or_wLength = Length 4\<rparr>]
   \<and> trace (snd (run 0x12345678 False dev0)) = trace dev0 @
         [Ctrl \<lparr>bmRequestType = 0x40, bRequest = 0x05, wValue = 0x1234, wIndex = 0x5678,
                data_or_wLength = Data (le32 0x12345678)\<rparr>]"
  using address_halves_in_wValue_wIndex
    [where address = "0x12345678" and data = "[1, 2, 3]" and d = dev0 and len = 4
       and keep_power = False]
  by simp

section \<open>Large transfers\<close>

text \<open>
  Claim C1. The claim has \<open>writeLargeMemory\<close> with \<open>appendZeros\<close> pad the data to the next
  multiple of the block length and send every block. The method appends
  \<open>len(data) % blockLength\<close> zero bytes instead: 5 bytes with a block length of 4 become 6
  bytes, the announcement gives a length of 6 and a block count of 1, and one bulk write
  carries the first four bytes; the fifth byte is never sent.
\<close>

theorem writeLargeMemory_short_padding:
  "fst (writeLargeMemory 0x1000 [1, 2, 3, 4, 5] 4 True dev0) = Inr () \<and>
   trace (snd (writeLargeMemory 0x1000 [1, 2, 3, 4, 5] 4 True dev0)) =
     [GetActiveConfiguration, FindDescriptor 0,
      Ctrl \<lparr>bmRequestType = 0x40, bRequest = 0x11, wValue = 4, wIndex = 1,
            data_or_wLength = Data [0x00, 0x10, 0, 0,  6, 0, 0, 0,  0, 0, 0, 0,  0, 0, 0, 0]\<rparr>,
      BulkWrite 2 [1, 2, 3, 4] 100]"
  by (simp add: writeLargeMemory_def dev0_def pack_IIII_def pack_I_def le32_def int_truediv_def
      stub_defs unpack_I_def py_slice_def clamp_index_def drop_bit_eq_div Let_def)




section \<open>Chunked memory access\<close>

text \<open>
  Claim C4. For every address and buffer, \<open>writeMemory\<close> raises nothing and issues exactly
  \<open>(len + 63) div 64\<close> write-memory control transfers, that is the length divided by 64
  and rounded up; the \<open>i\<close>-th carries the bytes \<open>64 i\<close> to \<open>64 i + 63\<close> of the buffer, at
  most 64 of them, under the address \<open>address + 64 i\<close> split into \<open>wValue\<close> and
  \<open>wIndex\<close>; the chunks put together are the buffer; an empty buffer leaves the device
  untouched.
\<close>

theorem writeMemory_chunks:
  "fst (writeMemory address data d) = Inr ()
   \<and> trace (snd (writeMemory address data d)) = trace d @
        map (\<lambda>i. Ctrl \<lparr>bmRequestType = 0x40, bRequest = 0x01,
                        wValue = drop_bit 16 (address + 64 * int i),
                        wIndex = (address + 64 * int i) AND 0xffff,
                        data_or_wLength = Data (take 64 (drop (64 * i) data))\<rparr>)
            [0..<(length data + 63) div 64]
   \<and> concat (map (\<lambda>i. take 64 (drop (64 * i) data)) [0..<(length data + 63) div 64]) = data
   \<and> length (take 64 (drop (64 * i) data)) \<le> 64
   \<and> length data \<le> 64 * ((length data + 63) div 64)
   \<and> 64 * ((length data + 63) div 64) < length data + 64
   \<and> writeMemory address [] d = (Inr (), d)"
proof -
  have w: "writeMemory address data d =
        (Inr (), d\<lparr>trace := trace d @
                  map (\<lambda>i. Ctrl \<lparr>bmRequestType = 0x40, bRequest = 0x01,
                                  wValue = drop_bit 16 (address + 64 * int i),
                                  wIndex = (address + 64 * int i) AND 0xffff,
                                  data_or_wLength = Data (take 64 (drop (64 * i) data))\<rparr>)
                      [0..<(length data + 63) div 64],
                memory := store (memory d) (address + 64 * int 0) (drop (64 * 0) data)\<rparr>)"
    using writeMemory_loop_chunks [of 0 data address d] by (simp add: writeMemory_def)
  have c: "concat (map (\<lambda>i. take 64 (drop (64 * i) data)) [0..<(length data + 63) div 64]) = data"
    using chunks_concat [of 0 data] by simp
  have e: "writeMemory address [] d = (Inr (), d)"
    by (simp add: writeMemory_def)
  have a: "length data \<le> 64 * ((length data + 63) div 64)
           \<and> 64 * ((length data + 63) div 64) < length data + 64"
    by arith
  show ?thesis
    using c e a by (simp add: w)
qed

theorem writeMemory_chunks_witness:
  "fst (writeMemory 0xfffe (replicate 70 7) dev0) = Inr ()
   \<and> trace (snd (writeMemory 0xfffe (replicate 70 7) dev0)) =
       [Ctrl \<lparr>bmRequestType = 0x40, bRequest = 0x01, wValue = 0, wIndex = 0xfffe,
              data_or_wLength = Data (replicate 64 7)\<rparr>,
        Ctrl \<lparr>bmRequestType = 0x40, bRequest = 0x01, wValue = 1, wIndex = 0x003e,
              data_or_wLength = Data (replicate 6 7)\<rparr>]"
proof -
  have "[0..<(length (replicate 70 (7::byte)) + 63) div 64] = [0, 1]"
    by (simp add: upt_rec)
  then show ?thesis
    using writeMemory_chunks [of "0xfffe" "replicate 70 7" dev0 0]
    by (simp add: dev0_def and_ffff drop_bit_eq_div)
qed

text \<open>
  Claim C3. The claim has \<open>readMemory\<close> return what \<open>writeMemory\<close> wrote. \<open>readMemory\<close>
  adds the array that each transfer returns to the string \<open>''\<close> without the conversion
  that \<open>identify\<close> and \<open>readLargeMemory\<close> make: after three bytes are written, the
  transfer of the read does return them, and the read raises \<open>TypeError\<close>.
\<close>

theorem readMemory_concat_type_error:
  "fst (writeMemory 0x1000 [1, 2, 3] dev0) = Inr ()
   \<and> fst (readSimpleMemory 0x1000 3 (snd (writeMemory 0x1000 [1, 2, 3] dev0))) =
       Inr (Array [1, 2, 3])
   \<and> fst (readMemory 0x1000 3 (snd (writeMemory 0x1000 [1, 2, 3] dev0))) = Inl TypeError"
  by (simp add: writeMemory_def readMemory_def writeSimpleMemory_def readSimpleMemory_def
      py_slice_def clamp_index_def wire_address_def load_def dev0_def stub_defs
      drop_bit_eq_div and_ffff upt_rec)

end
